theory Spec2Isabelle
  imports Main
begin

section \<open>Python values\<close>

text \<open>
  The handler of \<^verbatim>\<open>py-lambda/app.py\<close> receives an event that the hosting runtime has
  decoded from JSON, and works on the values \<^verbatim>\<open>json.loads\<close> produces. Both are Python
  values of seven kinds: \<^verbatim>\<open>None\<close>, \<^verbatim>\<open>bool\<close>, \<^verbatim>\<open>int\<close>, \<^verbatim>\<open>float\<close>, \<^verbatim>\<open>str\<close>,
  \<^verbatim>\<open>list\<close> and \<^verbatim>\<open>dict\<close> with \<^verbatim>\<open>str\<close> keys.

  A Python \<^verbatim>\<open>str\<close> is a sequence of Unicode code points, so it is a list of naturals
  here (a \<^typ>\<open>char\<close> of HOL is a byte). \<open>py ''abc''\<close> is the \<^verbatim>\<open>str\<close> of an ASCII
  literal and \<open>ord c\<close> the code point of an ASCII character.
\<close>

type_synonym pystr = "nat list"

definition ord :: "char \<Rightarrow> nat" where
  "ord c = of_char c"

definition py :: "string \<Rightarrow> pystr" where
  "py s = map ord s"

text \<open>
  A Python \<^verbatim>\<open>float\<close> is an IEEE 754 double. \<open>Finite s m e\<close> is the double
  \<open>(-1)\<^sup>s * m * 2\<^sup>e\<close> in canonical form: \<open>m < 2\<^sup>5\<^sup>3\<close>, \<open>-1074 \<le> e \<le> 971\<close>, and
  \<open>2\<^sup>5\<^sup>2 \<le> m\<close> unless \<open>e = -1074\<close> (zero and the subnormal numbers).
\<close>

datatype pyfloat = Finite bool nat int | Inf bool | NaN

text \<open>
  A \<^verbatim>\<open>dict\<close> keeps its items in insertion order, and \<^verbatim>\<open>json.dumps\<close> writes them in
  that order: it is an association list.
\<close>

datatype pyval =
    PyNone
  | PyBool bool
  | PyInt int
  | PyFloat pyfloat
  | PyStr pystr
  | PyList "pyval list"
  | PyDict "(pystr \<times> pyval) list"

text \<open>\<^verbatim>\<open>type(v).__name__\<close>, as Python's error messages print it.\<close>

fun type_name :: "pyval \<Rightarrow> pystr" where
  "type_name PyNone = py ''NoneType''"
| "type_name (PyBool _) = py ''bool''"
| "type_name (PyInt _) = py ''int''"
| "type_name (PyFloat _) = py ''float''"
| "type_name (PyStr _) = py ''str''"
| "type_name (PyList _) = py ''list''"
| "type_name (PyDict _) = py ''dict''"

text \<open>
  The truth value Python's \<^verbatim>\<open>not\<close> tests: \<^verbatim>\<open>None\<close>, \<^verbatim>\<open>False\<close>, a zero number and an
  empty \<^verbatim>\<open>str\<close>, \<^verbatim>\<open>list\<close> or \<^verbatim>\<open>dict\<close> are false, everything else is true (a NaN and
  the infinities too: they are not equal to zero).
\<close>

fun truthy :: "pyval \<Rightarrow> bool" where
  "truthy PyNone = False"
| "truthy (PyBool b) = b"
| "truthy (PyInt i) = (i \<noteq> 0)"
| "truthy (PyFloat (Finite s m e)) = (m \<noteq> 0)"
| "truthy (PyFloat (Inf s)) = True"
| "truthy (PyFloat NaN) = True"
| "truthy (PyStr s) = (s \<noteq> [])"
| "truthy (PyList xs) = (xs \<noteq> [])"
| "truthy (PyDict kvs) = (kvs \<noteq> [])"

section \<open>Exceptions\<close>

text \<open>
  The exceptions the handler's \<^verbatim>\<open>try\<close> block can raise on these values, with the text
  \<^verbatim>\<open>str(e)\<close> gives. \<^verbatim>\<open>JSONDecodeError\<close> is a subclass of \<^verbatim>\<open>ValueError\<close>; all three are
  subclasses of \<^verbatim>\<open>Exception\<close>, which is what \<^verbatim>\<open>except Exception\<close> tests.
\<close>

datatype exn_class = JSONDecodeError | TypeError | AttributeError

datatype exn = Exn exn_class pystr

fun class_name :: "exn_class \<Rightarrow> pystr" where
  "class_name JSONDecodeError = py ''JSONDecodeError''"
| "class_name TypeError = py ''TypeError''"
| "class_name AttributeError = py ''AttributeError''"

fun issubclass_Exception :: "exn_class \<Rightarrow> bool" where
  "issubclass_Exception JSONDecodeError = True"
| "issubclass_Exception TypeError = True"
| "issubclass_Exception AttributeError = True"

fun type_of_exn :: "exn \<Rightarrow> exn_class" where
  "type_of_exn (Exn c m) = c"

fun str_of_exn :: "exn \<Rightarrow> pystr" where
  "str_of_exn (Exn c m) = m"

text \<open>
  \<^verbatim>\<open>v.get(key, default)\<close>: only a \<^verbatim>\<open>dict\<close> has the method; on every other value the
  attribute lookup raises.
\<close>

fun py_get :: "pyval \<Rightarrow> pystr \<Rightarrow> pyval \<Rightarrow> exn + pyval" where
  "py_get (PyDict kvs) key dflt =
     Inr (case map_of kvs key of Some v \<Rightarrow> v | None \<Rightarrow> dflt)"
| "py_get v key dflt =
     Inl (Exn AttributeError
       ([ord (CHR 0x27)] @ type_name v @ [ord (CHR 0x27)] @ py '' object has no attribute ''
          @ [ord (CHR 0x27)] @ py ''get'' @ [ord (CHR 0x27)]))"

section \<open>Numbers as text\<close>

text \<open>\<^verbatim>\<open>int.__repr__\<close>: the decimal digits, with a minus sign for a negative number.\<close>

fun digits10 :: "nat \<Rightarrow> pystr" where
  "digits10 n = (if n < 10 then [48 + n] else digits10 (n div 10) @ [48 + n mod 10])"

declare digits10.simps [simp del]

definition int_repr :: "int \<Rightarrow> pystr" where
  "int_repr i = (if i < 0 then ord CHR ''-'' # digits10 (nat (- i)) else digits10 (nat i))"

subsection \<open>Decimal text to double\<close>

text \<open>
  \<^verbatim>\<open>float(text)\<close> gives the double nearest to the decimal number, ties to the even
  mantissa; a number too large becomes an infinity, one too small a zero. The functions
  below compute it exactly, on a quotient \<open>p / q\<close> of naturals.
\<close>

fun bit_length :: "nat \<Rightarrow> nat" where
  "bit_length n = (if n = 0 then 0 else Suc (bit_length (n div 2)))"

declare bit_length.simps [simp del]

definition round_half_even :: "nat \<Rightarrow> nat \<Rightarrow> nat" where
  "round_half_even p q =
     (let d = p div q; r = p mod q
      in if 2 * r < q then d
         else if q < 2 * r then d + 1
         else if even d then d else d + 1)"

text \<open>\<open>scaled p q e\<close> is the quotient \<open>p / (q * 2\<^sup>e)\<close> as a pair of naturals.\<close>

definition scaled :: "nat \<Rightarrow> nat \<Rightarrow> int \<Rightarrow> nat \<times> nat" where
  "scaled p q e = (p * 2 ^ nat (- e), q * 2 ^ nat e)"

definition float_of_ratio :: "bool \<Rightarrow> nat \<Rightarrow> nat \<Rightarrow> pyfloat" where
  "float_of_ratio sg p q =
     (if p = 0 then Finite sg 0 (- 1074)
      else
        let b = int (bit_length p) - int (bit_length q);
            e0 = b - 53;
            e1 = (if 2 ^ 53 \<le> fst (scaled p q e0) div snd (scaled p q e0) then e0 + 1 else e0);
            e2 = max e1 (- 1074);
            m = round_half_even (fst (scaled p q e2)) (snd (scaled p q e2));
            m3 = (if m = 2 ^ 53 then 2 ^ 52 else m);
            e3 = (if m = 2 ^ 53 then e2 + 1 else e2)
        in if 971 < e3 then Inf sg else Finite sg m3 e3)"

text \<open>The double nearest to \<open>(-1)\<^sup>s\<^sup>g * d * 10\<^sup>x\<close>.\<close>

definition float_of_decimal :: "bool \<Rightarrow> nat \<Rightarrow> int \<Rightarrow> pyfloat" where
  "float_of_decimal sg d x = float_of_ratio sg (d * 10 ^ nat x) (10 ^ nat (- x))"

subsection \<open>Double to decimal text\<close>

text \<open>
  \<^verbatim>\<open>float.__repr__\<close> prints the shortest decimal number that reads back as the same
  double and, among the shortest, the nearest one. A decimal \<open>c * 10\<^sup>k\<close> reads back as
  \<open>m * 2\<^sup>e\<close> when it lies between the midpoints to the two neighbouring doubles; the
  midpoints themselves read back as the one with the even mantissa. The lower neighbour
  is half as far away when \<open>m\<close> is the least mantissa of its exponent.
  In quarters of \<open>2\<^sup>e\<close> the double is \<open>4 * m\<close> and the midpoints are \<open>lower_mid m e\<close>
  and \<open>4 * m + 2\<close>.
\<close>

definition lower_mid :: "nat \<Rightarrow> int \<Rightarrow> nat" where
  "lower_mid m e = (if m = 2 ^ 52 \<and> - 1074 < e then 4 * m - 1 else 4 * m - 2)"

text \<open>
  \<open>cmp_quarters c k e t\<close> compares \<open>c * 10\<^sup>k\<close> with \<open>t\<close> quarters of \<open>2\<^sup>e\<close>, by cross
  multiplication: the result is negative, zero or positive as the decimal is less,
  equal or greater.
\<close>

definition cmp_quarters :: "nat \<Rightarrow> int \<Rightarrow> int \<Rightarrow> nat \<Rightarrow> int" where
  "cmp_quarters c k e t =
     int (c * 10 ^ nat k * 2 ^ nat (2 - e)) - int (t * 2 ^ nat (e - 2) * 10 ^ nat (- k))"

definition reads_back :: "nat \<Rightarrow> int \<Rightarrow> nat \<Rightarrow> int \<Rightarrow> bool" where
  "reads_back m e c k =
     (if even m
      then 0 \<le> cmp_quarters c k e (lower_mid m e) \<and> cmp_quarters c k e (4 * m + 2) \<le> 0
      else 0 < cmp_quarters c k e (lower_mid m e) \<and> cmp_quarters c k e (4 * m + 2) < 0)"

definition ndigits :: "nat \<Rightarrow> nat" where
  "ndigits n = (if n = 0 then 0 else length (digits10 n))"

text \<open>The position of the decimal point: \<open>10\<^sup>d\<^sup>-\<^sup>1 \<le> p / q < 10\<^sup>d\<close>, for \<open>0 < p\<close>.\<close>

definition decimal_point :: "nat \<Rightarrow> nat \<Rightarrow> int" where
  "decimal_point p q =
     (if q \<le> p then int (ndigits (p div q)) else 1 - int (ndigits ((q - 1) div p)))"

text \<open>
  The decimal of \<open>n\<close> digits for \<open>m * 2\<^sup>e\<close>, if one reads back: the one just below the
  double or the one just above it, and the nearer of the two when both do.
\<close>

definition candidate :: "nat \<Rightarrow> int \<Rightarrow> nat \<Rightarrow> (nat \<times> int) option" where
  "candidate m e n =
     (let p = m * 2 ^ nat e; q = 2 ^ nat (- e);
          k = decimal_point p q - int n;
          lo = (p * 10 ^ nat (- k)) div (q * 10 ^ nat k);
          hi = lo + 1
      in if reads_back m e lo k \<and> reads_back m e hi k
         then Some (if cmp_quarters (lo + hi) k e (8 * m) < 0 then hi else lo, k)
         else if reads_back m e lo k then Some (lo, k)
         else if reads_back m e hi k then Some (hi, k)
         else None)"

definition shortest_decimal :: "nat \<Rightarrow> int \<Rightarrow> nat \<times> int" where
  "shortest_decimal m e =
     (case List.map_filter (candidate m e) [1 ..< 18] of
        r # _ \<Rightarrow> r
      | [] \<Rightarrow> (m * 2 ^ nat e, 0))"

fun strip_zeros :: "pystr \<Rightarrow> pystr" where
  "strip_zeros ds = rev (dropWhile (\<lambda>c. c = ord CHR ''0'') (rev ds))"

text \<open>
  The layout of \<^verbatim>\<open>repr\<close>: the digits \<open>ds\<close> with the decimal point after the first
  \<open>d\<close> of them; an exponent when \<open>d \<le> -4\<close> or \<open>16 < d\<close>, with a sign and two digits at
  least; otherwise positional, with \<open>.0\<close> after a whole number.
\<close>

definition float_layout :: "pystr \<Rightarrow> int \<Rightarrow> pystr" where
  "float_layout ds d =
     (if d \<le> - 4 \<or> 16 < d then
        (let x = d - 1;
             xs = digits10 (nat \<bar>x\<bar>)
         in hd ds # (if tl ds = [] then [] else ord CHR ''.'' # tl ds)
            @ [ord CHR ''e'', if x < 0 then ord CHR ''-'' else ord CHR ''+'']
            @ (if length xs < 2 then ord CHR ''0'' # xs else xs))
      else if d \<le> 0 then
        py ''0.'' @ replicate (nat (- d)) (ord CHR ''0'') @ ds
      else if int (length ds) \<le> d then
        ds @ replicate (nat (d - int (length ds))) (ord CHR ''0'') @ py ''.0''
      else
        take (nat d) ds @ [ord CHR ''.''] @ drop (nat d) ds)"

fun float_repr :: "pyfloat \<Rightarrow> pystr" where
  "float_repr NaN = py ''nan''"
| "float_repr (Inf sg) = (if sg then py ''-inf'' else py ''inf'')"
| "float_repr (Finite sg m e) =
     (if sg then [ord CHR ''-''] else []) @
     (if m = 0 then py ''0.0''
      else
        let ck = shortest_decimal m e;
            ds = digits10 (fst ck)
        in float_layout (strip_zeros ds) (int (length ds) + snd ck))"

section \<open>The encoder: \<^verbatim>\<open>json.dumps\<close>\<close>

text \<open>
  \<^verbatim>\<open>json.dumps\<close> with its default options: \<^verbatim>\<open>ensure_ascii\<close> escapes every character
  outside the printable ASCII range, the separators are \<^verbatim>\<open>", "\<close> and \<^verbatim>\<open>": "\<close>, and the
  special floats are written \<^verbatim>\<open>NaN\<close>, \<^verbatim>\<open>Infinity\<close> and \<^verbatim>\<open>-Infinity\<close>.
\<close>

definition backslash :: nat where
  "backslash = ord (CHR 0x5C)"

definition hexdigit :: "nat \<Rightarrow> nat" where
  "hexdigit d = (if d < 10 then ord CHR ''0'' + d else ord CHR ''a'' + (d - 10))"

text \<open>\<^verbatim>\<open>'{0:04x}'.format(n)\<close>, for \<open>n < 0x10000\<close>.\<close>

definition hex4 :: "nat \<Rightarrow> pystr" where
  "hex4 n = map hexdigit [n div 4096 mod 16, n div 256 mod 16, n div 16 mod 16, n mod 16]"

text \<open>
  The replacement of one character in \<^verbatim>\<open>encode_basestring_ascii\<close>: the pattern
  \<^verbatim>\<open>ESCAPE_ASCII\<close> matches a backslash, a double quote and everything outside
  \<^verbatim>\<open>' '\<close> .. \<^verbatim>\<open>'~'\<close>; a character beyond the basic plane becomes a surrogate pair.
\<close>

definition escape_ascii :: "nat \<Rightarrow> pystr" where
  \<open>escape_ascii c =
     (if c = backslash then [backslash, backslash]
      else if c = ord CHR ''"'' then [backslash, ord CHR ''"'']
      else if 32 \<le> c \<and> c \<le> 126 then [c]
      else if c = 8 then [backslash, ord CHR ''b'']
      else if c = 12 then [backslash, ord CHR ''f'']
      else if c = 10 then [backslash, ord CHR ''n'']
      else if c = 13 then [backslash, ord CHR ''r'']
      else if c = 9 then [backslash, ord CHR ''t'']
      else if c < 0x10000 then [backslash, ord CHR ''u''] @ hex4 c
      else
        let n = c - 0x10000;
            s1 = 0xd800 + n div 1024 mod 1024;
            s2 = 0xdc00 + n mod 1024
        in [backslash, ord CHR ''u''] @ hex4 s1 @ [backslash, ord CHR ''u''] @ hex4 s2)\<close>

definition encode_basestring_ascii :: "pystr \<Rightarrow> pystr" where
  \<open>encode_basestring_ascii s = ord CHR ''"'' # concat (map escape_ascii s) @ [ord CHR ''"'']\<close>

fun floatstr :: "pyfloat \<Rightarrow> pystr" where
  "floatstr NaN = py ''NaN''"
| "floatstr (Inf sg) = (if sg then py ''-Infinity'' else py ''Infinity'')"
| "floatstr (Finite sg m e) = float_repr (Finite sg m e)"

text \<open>\<^verbatim>\<open>sep.join(parts)\<close>.\<close>

fun join :: "pystr \<Rightarrow> pystr list \<Rightarrow> pystr" where
  "join sep [] = []"
| "join sep [x] = x"
| "join sep (x # y # ys) = x @ sep @ join sep (y # ys)"

fun json_dumps :: "pyval \<Rightarrow> pystr" where
  "json_dumps PyNone = py ''null''"
| "json_dumps (PyBool b) = (if b then py ''true'' else py ''false'')"
| "json_dumps (PyInt i) = int_repr i"
| "json_dumps (PyFloat f) = floatstr f"
| "json_dumps (PyStr s) = encode_basestring_ascii s"
| "json_dumps (PyList xs) = py ''['' @ join (py '', '') (map json_dumps xs) @ py '']''"
| "json_dumps (PyDict kvs) =
     py ''{'' @
     join (py '', '')
       (map (\<lambda>kv. encode_basestring_ascii (fst kv) @ py '': '' @ json_dumps (snd kv)) kvs)
     @ py ''}''"

section \<open>The decoder: \<^verbatim>\<open>json.loads\<close>\<close>

text \<open>
  The decoder of CPython 3.11 (\<^verbatim>\<open>json/__init__.py\<close>, \<^verbatim>\<open>json/decoder.py\<close> and the
  scanner \<^verbatim>\<open>_json\<close> it runs on), with the default options. Where the source keeps an
  index \<^verbatim>\<open>idx\<close> into the document, the functions below keep the rest of the document
  from that index on; a position in an error is stored as the number of characters
  left there, and \<open>json_loads\<close> turns it into the index that the message prints.

  Two limits of the interpreter are outside the model: the recursion limit (a document
  nested some thousand levels deep raises \<^verbatim>\<open>RecursionError\<close>) and the limit on the
  digits of an integer (\<^verbatim>\<open>ValueError\<close> beyond 4300 digits).
\<close>

datatype scan_error =
    StopIteration nat
  | DecodeError pystr nat

definition is_whitespace :: "nat \<Rightarrow> bool" where
  "is_whitespace c \<longleftrightarrow> c = 32 \<or> c = 9 \<or> c = 10 \<or> c = 13"

definition skip_whitespace :: "pystr \<Rightarrow> pystr" where
  "skip_whitespace cs = dropWhile is_whitespace cs"

definition is_digit :: "nat \<Rightarrow> bool" where
  "is_digit c \<longleftrightarrow> ord CHR ''0'' \<le> c \<and> c \<le> ord CHR ''9''"

subsection \<open>Strings\<close>

definition hexval :: "nat \<Rightarrow> nat option" where
  "hexval c =
     (if ord CHR ''0'' \<le> c \<and> c \<le> ord CHR ''9'' then Some (c - ord CHR ''0'')
      else if ord CHR ''a'' \<le> c \<and> c \<le> ord CHR ''f'' then Some (c - ord CHR ''a'' + 10)
      else if ord CHR ''A'' \<le> c \<and> c \<le> ord CHR ''F'' then Some (c - ord CHR ''A'' + 10)
      else None)"

text \<open>The number that hexadecimal digits write, if all of them are digits.\<close>

fun decode_hex :: "nat \<Rightarrow> pystr \<Rightarrow> nat option" where
  "decode_hex a [] = Some a"
| "decode_hex a (c # cs) =
     (case hexval c of None \<Rightarrow> None | Some d \<Rightarrow> decode_hex (a * 16 + d) cs)"

text \<open>The character a backslash escape other than \<^verbatim>\<open>\u\<close> stands for.\<close>

definition unescape :: "nat \<Rightarrow> nat option" where
  \<open>unescape c =
     (if c = ord CHR ''"'' \<or> c = backslash \<or> c = ord CHR ''/'' then Some c
      else if c = ord CHR ''b'' then Some 8
      else if c = ord CHR ''f'' then Some 12
      else if c = ord CHR ''n'' then Some 10
      else if c = ord CHR ''r'' then Some 13
      else if c = ord CHR ''t'' then Some 9
      else None)\<close>

definition invalid_escape :: pystr where
  "invalid_escape = py ''Invalid '' @ [backslash] @ py ''escape''"

definition invalid_uXXXX_escape :: pystr where
  "invalid_uXXXX_escape = py ''Invalid '' @ [backslash] @ py ''uXXXX escape''"

definition unterminated_string :: pystr where
  "unterminated_string = py ''Unterminated string starting at''"

text \<open>
  One escape sequence of \<^verbatim>\<open>scanstring\<close>, from the character after the backslash;
  \<open>begin\<close> is the position of the quote that opened the string. A \<^verbatim>\<open>\uXXXX\<close> escape
  needs a character after its four digits. A high surrogate is joined with a low
  surrogate that follows it as a second escape, which needs a character after it too,
  and stands alone otherwise.
\<close>

definition scan_escape :: "nat \<Rightarrow> pystr \<Rightarrow> scan_error + (nat \<times> pystr)" where
  "scan_escape begin cs =
     (case cs of
        [] \<Rightarrow> Inl (DecodeError unterminated_string begin)
      | esc # cs1 \<Rightarrow>
          if esc \<noteq> ord CHR ''u'' then
            (case unescape esc of
               None \<Rightarrow> Inl (DecodeError invalid_escape (Suc (length cs)))
             | Some ch \<Rightarrow> Inr (ch, cs1))
          else if length cs1 < 5 then Inl (DecodeError invalid_uXXXX_escape (length cs))
          else
            (case decode_hex 0 (take 4 cs1) of
               None \<Rightarrow> Inl (DecodeError invalid_uXXXX_escape (length cs))
             | Some uni \<Rightarrow>
                 let cs2 = drop 4 cs1 in
                 if 0xd800 \<le> uni \<and> uni \<le> 0xdbff \<and> 6 < length cs2
                    \<and> take 2 cs2 = [backslash, ord CHR ''u'']
                 then
                   (case decode_hex 0 (take 4 (drop 2 cs2)) of
                      None \<Rightarrow> Inl (DecodeError invalid_uXXXX_escape (length cs2 - 1))
                    | Some uni2 \<Rightarrow>
                        if 0xdc00 \<le> uni2 \<and> uni2 \<le> 0xdfff
                        then Inr (0x10000 + ((uni - 0xd800) * 1024 + (uni2 - 0xdc00)),
                                  drop 6 cs2)
                        else Inr (uni, cs2))
                 else Inr (uni, cs2)))"

lemma scan_escape_shorter:
  "scan_escape b cs = Inr (ch, rest) \<Longrightarrow> length rest < length cs"
  unfolding scan_escape_def Let_def
  by (cases cs) (auto split: if_splits option.splits)

text \<open>
  \<^verbatim>\<open>scanstring\<close>, from the character after the opening quote; \<open>acc\<close> holds the
  characters decoded so far. A control character is refused (\<^verbatim>\<open>strict\<close> is on).
\<close>

function scanstring_from :: "nat \<Rightarrow> pystr \<Rightarrow> pystr \<Rightarrow> scan_error + (pystr \<times> pystr)" where
  \<open>scanstring_from begin acc [] = Inl (DecodeError unterminated_string begin)\<close>
| \<open>scanstring_from begin acc (c # cs) =
     (if c = ord CHR ''"'' then Inr (acc, cs)
      else if c = backslash then
        (case scan_escape begin cs of
           Inl e \<Rightarrow> Inl e
         | Inr (ch, rest) \<Rightarrow> scanstring_from begin (acc @ [ch]) rest)
      else if c \<le> 0x1f then
        Inl (DecodeError (py ''Invalid control character at'') (Suc (length cs)))
      else scanstring_from begin (acc @ [c]) cs)\<close>
  by pat_completeness auto
termination
  by (relation "measure (\<lambda>(b, acc, cs). length cs)")
     (auto dest: scan_escape_shorter)

declare scanstring_from.simps [simp del]

definition scanstring :: "pystr \<Rightarrow> scan_error + (pystr \<times> pystr)" where
  "scanstring cs = scanstring_from (Suc (length cs)) [] cs"

lemma scanstring_from_shorter:
  "scanstring_from b acc cs = Inr (s, rest) \<Longrightarrow> length rest < length cs"
proof (induction b acc cs rule: scanstring_from.induct)
  case (1 b acc)
  then show ?case by (simp add: scanstring_from.simps)
next
  case (2 b acc c cs)
  show ?case
  proof (cases "c = ord CHR 0x22")
    case True
    with "2.prems" show ?thesis by (simp add: scanstring_from.simps)
  next
    case quote: False
    show ?thesis
    proof (cases "c = backslash")
      case True
      with quote "2.prems" obtain ch r where
        esc: "scan_escape b cs = Inr (ch, r)" and
        rec: "scanstring_from b (acc @ [ch]) r = Inr (s, rest)"
        by (auto simp: scanstring_from.simps split: sum.splits)
      from "2.IH"(1) [OF quote True esc refl rec] scan_escape_shorter [OF esc]
      show ?thesis by simp
    next
      case False
      with quote "2.prems" have ctl: "\<not> c \<le> 0x1f"
        and rec: "scanstring_from b (acc @ [c]) cs = Inr (s, rest)"
        by (auto simp: scanstring_from.simps split: if_splits)
      from "2.IH"(2) [OF quote False ctl rec] show ?thesis by simp
    qed
  qed
qed

lemma scanstring_shorter: "scanstring cs = Inr (s, rest) \<Longrightarrow> length rest < length cs"
  by (simp add: scanstring_def scanstring_from_shorter)

subsection \<open>Numbers\<close>

definition nat_of_digits :: "pystr \<Rightarrow> nat" where
  "nat_of_digits ds = foldl (\<lambda>a c. 10 * a + (c - ord CHR ''0'')) 0 ds"

text \<open>
  The integer part of a number: a single \<^verbatim>\<open>0\<close>, or a digit from 1 to 9 and all the
  digits after it.
\<close>

definition match_integer :: "pystr \<Rightarrow> (pystr \<times> pystr) option" where
  "match_integer cs =
     (case cs of
        [] \<Rightarrow> None
      | d # r \<Rightarrow>
          if ord CHR ''1'' \<le> d \<and> d \<le> ord CHR ''9''
          then Some (d # takeWhile is_digit r, dropWhile is_digit r)
          else if d = ord CHR ''0'' then Some ([d], r)
          else None)"

text \<open>The fraction: a point and one digit at least.\<close>

definition match_frac :: "pystr \<Rightarrow> (pystr \<times> pystr) option" where
  "match_frac cs =
     (case cs of
        p # d # r \<Rightarrow>
          if p = ord CHR ''.'' \<and> is_digit d
          then Some (d # takeWhile is_digit r, dropWhile is_digit r)
          else None
      | _ \<Rightarrow> None)"

text \<open>The exponent: \<^verbatim>\<open>e\<close> or \<^verbatim>\<open>E\<close>, a sign if any, and one digit at least.\<close>

definition match_exp :: "pystr \<Rightarrow> (int \<times> pystr) option" where
  "match_exp cs =
     (case cs of
        [] \<Rightarrow> None
      | e # r \<Rightarrow>
          if e = ord CHR ''e'' \<or> e = ord CHR ''E'' then
            (let neg = (r \<noteq> [] \<and> hd r = ord CHR ''-'');
                 r1 = (if r \<noteq> [] \<and> (hd r = ord CHR ''-'' \<or> hd r = ord CHR ''+'')
                       then tl r else r);
                 ds = takeWhile is_digit r1
             in if ds = [] then None
                else Some (if neg then - int (nat_of_digits ds) else int (nat_of_digits ds),
                           dropWhile is_digit r1))
          else None)"

text \<open>
  A number is an \<^verbatim>\<open>int\<close> unless it has a fraction or an exponent; then it is the
  \<^verbatim>\<open>float\<close> of its text.
\<close>

definition match_number :: "pystr \<Rightarrow> (pyval \<times> pystr) option" where
  "match_number cs =
     (let neg = (cs \<noteq> [] \<and> hd cs = ord CHR ''-'');
          cs1 = (if neg then tl cs else cs)
      in case match_integer cs1 of
           None \<Rightarrow> None
         | Some (ints, cs2) \<Rightarrow>
             (let fr = match_frac cs2;
                  frac = (case fr of None \<Rightarrow> [] | Some (ds, _) \<Rightarrow> ds);
                  cs3 = (case fr of None \<Rightarrow> cs2 | Some (_, r) \<Rightarrow> r);
                  ex = match_exp cs3;
                  cs4 = (case ex of None \<Rightarrow> cs3 | Some (_, r) \<Rightarrow> r)
              in if fr = None \<and> ex = None
                 then Some (PyInt (if neg then - int (nat_of_digits ints)
                                   else int (nat_of_digits ints)), cs4)
                 else Some (PyFloat (float_of_decimal neg (nat_of_digits (ints @ frac))
                                       ((case ex of None \<Rightarrow> 0 | Some (x, _) \<Rightarrow> x)
                                        - int (length frac))), cs4)))"

subsection \<open>Values, arrays and objects\<close>

text \<open>\<^verbatim>\<open>d[k] = v\<close>: a key already there keeps its place.\<close>

fun dict_setitem :: "(pystr \<times> pyval) list \<Rightarrow> pystr \<Rightarrow> pyval \<Rightarrow> (pystr \<times> pyval) list" where
  "dict_setitem [] k v = [(k, v)]"
| "dict_setitem ((k', v') # d) k v =
     (if k' = k then (k', v) # d else (k', v') # dict_setitem d k v)"

lemma length_skip_whitespace: "length (skip_whitespace cs) \<le> length cs"
  by (simp add: skip_whitespace_def length_dropWhile_le)

definition expecting_delimiter :: "char \<Rightarrow> pystr" where
  "expecting_delimiter c =
     py ''Expecting '' @ [ord (CHR 0x27), ord c, ord (CHR 0x27)] @ py '' delimiter''"

definition expecting_property_name :: pystr where
  "expecting_property_name = py ''Expecting property name enclosed in double quotes''"

text \<open>
  What follows an item of an array or an object, after whitespace: the closing
  bracket, or a comma and, after whitespace again, the next item; anything else is an
  error at that position.
\<close>

datatype delimiter = Closed pystr | Next pystr | Neither nat

definition after_item :: "char \<Rightarrow> pystr \<Rightarrow> delimiter" where
  "after_item close rest =
     (case skip_whitespace rest of
        [] \<Rightarrow> Neither 0
      | d # cs \<Rightarrow>
          if d = ord close then Closed cs
          else if d = ord CHR '','' then Next (skip_whitespace cs)
          else Neither (Suc (length cs)))"

text \<open>
  The key of an object's item: a string, then a colon with whitespace around it. The
  result is the key and the text from the item's value on.
\<close>

definition object_key :: "pystr \<Rightarrow> scan_error + (pystr \<times> pystr)" where
  \<open>object_key cs =
     (case cs of
        [] \<Rightarrow> Inl (DecodeError expecting_property_name 0)
      | q # cs1 \<Rightarrow>
          if q \<noteq> ord CHR ''"'' then Inl (DecodeError expecting_property_name (length cs))
          else
            (case scanstring cs1 of
               Inl e \<Rightarrow> Inl e
             | Inr (key, cs2) \<Rightarrow>
                 (case skip_whitespace cs2 of
                    [] \<Rightarrow> Inl (DecodeError (expecting_delimiter CHR '':'') 0)
                  | d # cs3 \<Rightarrow>
                      if d \<noteq> ord CHR '':''
                      then Inl (DecodeError (expecting_delimiter CHR '':'') (Suc (length cs3)))
                      else Inr (key, skip_whitespace cs3))))\<close>

lemma after_item_Closed: "after_item c rest = Closed r \<Longrightarrow> length r < length rest"
  using length_skip_whitespace [of rest]
  by (auto simp: after_item_def split: list.splits if_splits)

lemma after_item_Next: "after_item c rest = Next r \<Longrightarrow> length r < length rest"
proof -
  assume a: "after_item c rest = Next r"
  then obtain d cs where sk: "skip_whitespace rest = d # cs" and r: "r = skip_whitespace cs"
    by (auto simp: after_item_def split: list.splits if_splits)
  from sk length_skip_whitespace [of rest] have "length cs < length rest" by simp
  with r length_skip_whitespace [of cs] show ?thesis by simp
qed

lemma object_key_shorter:
  assumes "object_key cs = Inr (key, rest)"
  shows "length rest < length cs"
proof (cases cs)
  case Nil
  with assms show ?thesis by (simp add: object_key_def)
next
  case cs: (Cons q cs1)
  show ?thesis
  proof (cases "scanstring cs1")
    case (Inl e)
    with assms cs show ?thesis by (simp add: object_key_def split: if_splits)
  next
    case (Inr p)
    obtain k cs2 where p: "p = (k, cs2)" by (cases p)
    show ?thesis
    proof (cases "skip_whitespace cs2")
      case Nil
      with assms cs Inr p show ?thesis by (simp add: object_key_def split: if_splits)
    next
      case sk: (Cons d cs3)
      with assms cs Inr p have r: "rest = skip_whitespace cs3"
        by (simp add: object_key_def split: if_splits)
      from sk length_skip_whitespace [of cs2] have "length cs3 < length cs2" by simp
      moreover from Inr p have "length cs2 < length cs1" by (simp add: scanstring_shorter)
      ultimately show ?thesis using r length_skip_whitespace [of cs3] cs by simp
    qed
  qed
qed

text \<open>
  \<^verbatim>\<open>scan_once\<close> reads one value; \<open>parse_array_items\<close> and \<open>parse_object_items\<close> are
  the loops of \<^verbatim>\<open>_parse_array\<close> and \<^verbatim>\<open>_parse_object\<close>, entered at the first item of a
  container that is not empty. \<open>constants\<close> tells whether \<^verbatim>\<open>NaN\<close>, \<^verbatim>\<open>Infinity\<close> and
  \<^verbatim>\<open>-Infinity\<close> are read as floats, which is what \<^verbatim>\<open>json.loads\<close> does unless a
  \<^verbatim>\<open>parse_constant\<close> hook refuses them.

  The two tests \<open>length r < length cs\<close> have no counterpart in the source. They always
  hold (\<open>parse_array_items_unguarded\<close> and \<open>parse_object_items_unguarded\<close> below), and
  make the recursion well-founded.
\<close>

function scan_once :: "bool \<Rightarrow> pystr \<Rightarrow> scan_error + (pyval \<times> pystr)"
  and parse_array_items :: "bool \<Rightarrow> pyval list \<Rightarrow> pystr \<Rightarrow> scan_error + (pyval \<times> pystr)"
  and parse_object_items ::
    "bool \<Rightarrow> (pystr \<times> pyval) list \<Rightarrow> pystr \<Rightarrow> scan_error + (pyval \<times> pystr)"
where
  \<open>scan_once constants cs =
     (case cs of
        [] \<Rightarrow> Inl (StopIteration 0)
      | c # cs1 \<Rightarrow>
          if c = ord CHR ''"'' then
            (case scanstring cs1 of
               Inl e \<Rightarrow> Inl e
             | Inr (s, rest) \<Rightarrow> Inr (PyStr s, rest))
          else if c = ord CHR ''{'' then
            (if take 1 (skip_whitespace cs1) = py ''}''
             then Inr (PyDict [], drop 1 (skip_whitespace cs1))
             else parse_object_items constants [] (skip_whitespace cs1))
          else if c = ord CHR ''['' then
            (if take 1 (skip_whitespace cs1) = py '']''
             then Inr (PyList [], drop 1 (skip_whitespace cs1))
             else parse_array_items constants [] (skip_whitespace cs1))
          else if take 4 cs = py ''null'' then Inr (PyNone, drop 4 cs)
          else if take 4 cs = py ''true'' then Inr (PyBool True, drop 4 cs)
          else if take 5 cs = py ''false'' then Inr (PyBool False, drop 5 cs)
          else
            (case match_number cs of
               Some r \<Rightarrow> Inr r
             | None \<Rightarrow>
                 if constants \<and> take 3 cs = py ''NaN''
                 then Inr (PyFloat NaN, drop 3 cs)
                 else if constants \<and> take 8 cs = py ''Infinity''
                 then Inr (PyFloat (Inf False), drop 8 cs)
                 else if constants \<and> take 9 cs = py ''-Infinity''
                 then Inr (PyFloat (Inf True), drop 9 cs)
                 else Inl (StopIteration (length cs))))\<close>
| \<open>parse_array_items constants acc cs =
     (case scan_once constants cs of
        Inl e \<Rightarrow> Inl e
      | Inr (v, rest) \<Rightarrow>
          (case after_item CHR '']'' rest of
             Closed r \<Rightarrow> Inr (PyList (acc @ [v]), r)
           | Neither n \<Rightarrow> Inl (DecodeError (expecting_delimiter CHR '','') n)
           | Next r \<Rightarrow>
               if length r < length cs
               then parse_array_items constants (acc @ [v]) r
               else Inl (StopIteration 0)))\<close>
| \<open>parse_object_items constants pairs cs =
     (case object_key cs of
        Inl e \<Rightarrow> Inl e
      | Inr (key, cs1) \<Rightarrow>
          (case scan_once constants cs1 of
             Inl e \<Rightarrow> Inl e
           | Inr (v, rest) \<Rightarrow>
               (case after_item CHR ''}'' rest of
                  Closed r \<Rightarrow> Inr (PyDict (dict_setitem pairs key v), r)
                | Neither n \<Rightarrow> Inl (DecodeError (expecting_delimiter CHR '','') n)
                | Next r \<Rightarrow>
                    if length r < length cs
                    then parse_object_items constants (dict_setitem pairs key v) r
                    else Inl (StopIteration 0))))\<close>
  by pat_completeness auto
termination
proof (relation "measures
    [\<lambda>x. case x of Inl (k, cs) \<Rightarrow> length cs
                  | Inr (Inl (k, acc, cs)) \<Rightarrow> length cs
                  | Inr (Inr (k, ps, cs)) \<Rightarrow> length cs,
     \<lambda>x. case x of Inl _ \<Rightarrow> 0 | Inr _ \<Rightarrow> Suc 0]", goal_cases)
  case 1
  show ?case by simp
next
  case (2 constants cs c cs1)
  with length_skip_whitespace [of cs1] show ?case by simp
next
  case (3 constants cs c cs1)
  with length_skip_whitespace [of cs1] show ?case by simp
next
  case 4
  show ?case by simp
next
  case 5
  then show ?case by simp
next
  case (6 constants pairs cs x key cs1)
  then have "object_key cs = Inr (key, cs1)" by simp
  from object_key_shorter [OF this] show ?case by simp
next
  case 7
  then show ?case by simp
qed

declare scan_once.simps [simp del]
declare parse_array_items.simps [simp del]
declare parse_object_items.simps [simp del]

subsection \<open>Documents\<close>

text \<open>
  \<^verbatim>\<open>raw_decode\<close> turns the scanner's \<^verbatim>\<open>StopIteration\<close> into the error
  \<^verbatim>\<open>Expecting value\<close>; \<^verbatim>\<open>decode\<close> allows whitespace around the value and nothing else
  after it. An error is the message and the number of characters left at its position.
\<close>

definition raw_decode :: "bool \<Rightarrow> pystr \<Rightarrow> (pystr \<times> nat) + (pyval \<times> pystr)" where
  "raw_decode constants cs =
     (case scan_once constants cs of
        Inl (StopIteration n) \<Rightarrow> Inl (py ''Expecting value'', n)
      | Inl (DecodeError msg n) \<Rightarrow> Inl (msg, n)
      | Inr r \<Rightarrow> Inr r)"

definition decode :: "bool \<Rightarrow> pystr \<Rightarrow> (pystr \<times> nat) + pyval" where
  "decode constants s =
     (case raw_decode constants (skip_whitespace s) of
        Inl e \<Rightarrow> Inl e
      | Inr (obj, rest) \<Rightarrow>
          if skip_whitespace rest \<noteq> []
          then Inl (py ''Extra data'', length (skip_whitespace rest))
          else Inr obj)"

text \<open>
  \<^verbatim>\<open>JSONDecodeError(msg, doc, pos)\<close>: the text of the exception names the line, the
  column and the index of the position.
\<close>

definition decode_error :: "pystr \<Rightarrow> pystr \<Rightarrow> nat \<Rightarrow> exn" where
  "decode_error msg doc pos =
     (let prefix = take pos doc;
          lineno = Suc (length (filter (\<lambda>c. c = 10) prefix));
          colno = Suc (length (takeWhile (\<lambda>c. c \<noteq> 10) (rev prefix)))
      in Exn JSONDecodeError
           (msg @ py '': line '' @ digits10 lineno @ py '' column '' @ digits10 colno
              @ py '' (char '' @ digits10 pos @ py '')''))"

text \<open>
  \<^verbatim>\<open>json.loads(s)\<close>. Of the values in the model only a \<^verbatim>\<open>str\<close> is a document; a
  document that starts with a byte order mark is refused before it is decoded.
\<close>

fun json_loads :: "pyval \<Rightarrow> exn + pyval" where
  "json_loads (PyStr s) =
     (if take 1 s = [0xfeff]
      then Inl (decode_error (py ''Unexpected UTF-8 BOM (decode using utf-8-sig)'') s 0)
      else
        (case decode True s of
           Inl (msg, n) \<Rightarrow> Inl (decode_error msg s (length s - n))
         | Inr v \<Rightarrow> Inr v))"
| "json_loads v =
     Inl (Exn TypeError
            (py ''the JSON object must be str, bytes or bytearray, not '' @ type_name v))"

text \<open>
  The JSON grammar of RFC 8259 has no \<^verbatim>\<open>NaN\<close>, \<^verbatim>\<open>Infinity\<close> or \<^verbatim>\<open>-Infinity\<close>; in
  everything else the decoder reads just that grammar. A text is valid JSON when the
  decoder that refuses the three constants reads it.
\<close>

definition valid_json :: "pystr \<Rightarrow> bool" where
  "valid_json s = (case decode False s of Inr v \<Rightarrow> True | Inl e \<Rightarrow> False)"

section \<open>The handler\<close>

text \<open>
  The response envelope, a \<^verbatim>\<open>dict\<close> with three fixed keys in the source.
\<close>

record response =
  statusCode :: int
  headers :: "(pystr \<times> pystr) list"
  body :: pystr

text \<open>
  The records the handler hands to the process-wide logger, whose level is \<^verbatim>\<open>INFO\<close>,
  so that all of them are emitted. The log is the only state that outlives a call.
  The second \<^verbatim>\<open>INFO\<close> record formats two values with \<^verbatim>\<open>str\<close>, which for text inside
  a list or a dict depends on the Unicode tables; the record keeps the two values.
\<close>

datatype log_record =
    Info_received_event pystr
  | Info_processing_user pyval pyval
  | Error_error pystr

type_synonym log = "log_record list"

datatype outcome = Returned response | Raised exn

definition json_headers :: "(pystr \<times> pystr) list" where
  "json_headers = [(py ''Content-Type'', py ''application/json'')]"

definition missing_response :: response where
  \<open>missing_response =
     \<lparr>statusCode = 400, headers = json_headers,
      body = json_dumps (PyDict [(py ''error'', PyStr (py ''Missing "id" or "name"''))])\<rparr>\<close>

definition success_response :: "pyval \<Rightarrow> pyval \<Rightarrow> response" where
  "success_response user_id name =
     \<lparr>statusCode = 200, headers = json_headers,
      body = json_dumps (PyDict
        [(py ''message'', PyStr (py ''User processed successfully by Python Lambda'')),
         (py ''user'', PyDict [(py ''id'', user_id), (py ''name'', name)]),
         (py ''note'', PyStr (py ''Demo response - PostgreSQL database not configured''))])\<rparr>"

definition error_response :: "exn \<Rightarrow> response" where
  "error_response e =
     \<lparr>statusCode = 500, headers = json_headers,
      body = json_dumps (PyDict
        [(py ''error'', PyStr (py ''Internal server error'')),
         (py ''message'', PyStr (str_of_exn e)),
         (py ''type'', PyStr (class_name (type_of_exn e)))])\<rparr>"

text \<open>
  The body of the \<^verbatim>\<open>try\<close> statement: the response it returns or the exception it
  raises, and the log after it. The source's variable \<^verbatim>\<open>body\<close> is \<open>parsed\<close> here, as
  \<open>body\<close> names the field of the response.
\<close>

definition try_block :: "pyval \<Rightarrow> log \<Rightarrow> (exn + response) \<times> log" where
  "try_block event lg =
     (let lg1 = lg @ [Info_received_event (py ''Received event: '' @ json_dumps event)]
      in case py_get event (py ''body'') (PyStr (py ''{}'')) of
           Inl e \<Rightarrow> (Inl e, lg1)
         | Inr text \<Rightarrow>
             (case json_loads text of
                Inl e \<Rightarrow> (Inl e, lg1)
              | Inr parsed \<Rightarrow>
                  (case py_get parsed (py ''id'') PyNone of
                     Inl e \<Rightarrow> (Inl e, lg1)
                   | Inr user_id \<Rightarrow>
                       (case py_get parsed (py ''name'') PyNone of
                          Inl e \<Rightarrow> (Inl e, lg1)
                        | Inr name \<Rightarrow>
                            if \<not> truthy user_id \<or> \<not> truthy name
                            then (Inr missing_response, lg1)
                            else (Inr (success_response user_id name),
                                  lg1 @ [Info_processing_user user_id name])))))"

text \<open>
  \<^verbatim>\<open>lambda_handler(event, context)\<close>, run on the log \<open>lg\<close>: \<^verbatim>\<open>except Exception\<close> takes
  every exception of a subclass of \<^verbatim>\<open>Exception\<close> and lets any other one pass.
\<close>

definition lambda_handler :: "pyval \<Rightarrow> 'ctx \<Rightarrow> log \<Rightarrow> outcome \<times> log" where
  "lambda_handler event context lg =
     (case try_block event lg of
        (Inr r, lg1) \<Rightarrow> (Returned r, lg1)
      | (Inl e, lg1) \<Rightarrow>
          if issubclass_Exception (type_of_exn e)
          then (Returned (error_response e),
                lg1 @ [Error_error (py ''Error: '' @ str_of_exn e)])
          else (Raised e, lg1))"

section \<open>The decoder consumes what it reads\<close>

text \<open>
  Every value the scanner reads takes at least one character, so the two tests that
  guard the recursion of \<open>parse_array_items\<close> and \<open>parse_object_items\<close> never fail:
  the loops satisfy the equations of the source, without the tests.
\<close>

lemma length_py [simp]: "length (py s) = length s"
  by (simp add: py_def)

lemma drop_literal_shorter:
  assumes "take n cs = py s" and "s \<noteq> []"
  shows "length (drop n cs) < length cs"
proof -
  from assms(2) have "py s \<noteq> []" by (simp add: py_def)
  with assms(1) have "take n cs \<noteq> []" by simp
  then have "0 < n" and "cs \<noteq> []" by auto
  then show ?thesis by simp
qed

lemma match_integer_shorter:
  "match_integer cs = Some (ds, r) \<Longrightarrow> length r < length cs"
  by (cases cs)
     (auto simp: match_integer_def less_Suc_eq_le length_dropWhile_le split: if_splits)

lemma match_frac_shorter:
  "match_frac cs = Some (ds, r) \<Longrightarrow> length r \<le> length cs"
  by (auto simp: match_frac_def le_SucI length_dropWhile_le split: list.splits if_splits)

lemma match_exp_shorter:
  assumes "match_exp cs = Some (x, r)"
  shows "length r \<le> length cs"
proof (cases cs)
  case Nil
  with assms show ?thesis by (simp add: match_exp_def)
next
  case (Cons e t)
  define t1 where "t1 = (if t \<noteq> [] \<and> (hd t = ord CHR ''-'' \<or> hd t = ord CHR ''+'') then tl t else t)"
  have "length t1 \<le> length t" by (simp add: t1_def)
  moreover from assms Cons have "r = dropWhile is_digit t1"
    by (auto simp: match_exp_def Let_def t1_def split: if_splits)
  ultimately have "length r \<le> length t"
    using length_dropWhile_le [of is_digit t1] by simp
  with Cons show ?thesis by simp
qed

lemma match_number_shorter:
  assumes "match_number cs = Some (v, rest)"
  shows "length rest < length cs"
proof -
  define cs1 where "cs1 = (if cs \<noteq> [] \<and> hd cs = ord CHR ''-'' then tl cs else cs)"
  have c1: "length cs1 \<le> length cs" by (simp add: cs1_def)
  from assms obtain ints cs2 where i: "match_integer cs1 = Some (ints, cs2)"
    by (auto simp: match_number_def Let_def cs1_def split: option.splits)
  define cs3 where "cs3 = (case match_frac cs2 of None \<Rightarrow> cs2 | Some (ds, r) \<Rightarrow> r)"
  define cs4 where "cs4 = (case match_exp cs3 of None \<Rightarrow> cs3 | Some (x, r) \<Rightarrow> r)"
  have c3: "length cs3 \<le> length cs2"
    by (auto simp: cs3_def dest: match_frac_shorter split: option.splits)
  have c4: "length cs4 \<le> length cs3"
    by (auto simp: cs4_def dest: match_exp_shorter split: option.splits)
  from assms i have "rest = cs4"
    by (auto simp: match_number_def Let_def cs1_def cs3_def cs4_def
        split: if_splits option.splits)
  with c1 c3 c4 match_integer_shorter [OF i] show ?thesis by simp
qed

lemma scan_once_shorter:
  "scan_once k cs = Inr (v, rest) \<Longrightarrow> length rest < length cs"
  "parse_array_items k acc cs = Inr (v, rest) \<Longrightarrow> length rest < length cs"
  "parse_object_items k ps cs = Inr (v, rest) \<Longrightarrow> length rest < length cs"
proof (induction k cs and k acc cs and k ps cs arbitrary: v rest and v rest and v rest
    rule: scan_once_parse_array_items_parse_object_items.induct)
  case (1 constants cs)
  from "1.prems" obtain c cs1 where cs: "cs = c # cs1"
    by (cases cs) (auto simp: scan_once.simps)
  consider (str) "c = ord CHR 0x22"
    | (obj) "c \<noteq> ord CHR 0x22" "c = ord CHR ''{''"
    | (arr) "c \<noteq> ord CHR 0x22" "c \<noteq> ord CHR ''{''" "c = ord CHR ''[''"
    | (other) "c \<noteq> ord CHR 0x22" "c \<noteq> ord CHR ''{''" "c \<noteq> ord CHR ''[''"
    by blast
  then show ?case
  proof cases
    case str
    with "1.prems" cs obtain s where "scanstring cs1 = Inr (s, rest)"
      by (auto simp: scan_once.simps split: sum.splits)
    from scanstring_shorter [OF this] cs show ?thesis by simp
  next
    case obj
    show ?thesis
    proof (cases "take 1 (skip_whitespace cs1) = py ''}''")
      case True
      with "1.prems" cs obj have "rest = drop 1 (skip_whitespace cs1)"
        by (simp add: scan_once.simps)
      with length_skip_whitespace [of cs1] cs show ?thesis by simp
    next
      case False
      with "1.prems" cs obj
      have "parse_object_items constants [] (skip_whitespace cs1) = Inr (v, rest)"
        by (simp add: scan_once.simps)
      from "1.IH"(1) [OF cs obj False this] length_skip_whitespace [of cs1] cs
      show ?thesis by simp
    qed
  next
    case arr
    show ?thesis
    proof (cases "take 1 (skip_whitespace cs1) = py '']''")
      case True
      with "1.prems" cs arr have "rest = drop 1 (skip_whitespace cs1)"
        by (simp add: scan_once.simps)
      with length_skip_whitespace [of cs1] cs show ?thesis by simp
    next
      case False
      with "1.prems" cs arr
      have "parse_array_items constants [] (skip_whitespace cs1) = Inr (v, rest)"
        by (simp add: scan_once.simps)
      from "1.IH"(2) [OF cs arr False this] length_skip_whitespace [of cs1] cs
      show ?thesis by simp
    qed
  next
    case other
    with "1.prems" cs have
      "(take 4 cs = py ''null'' \<and> rest = drop 4 cs) \<or>
       (take 4 cs = py ''true'' \<and> rest = drop 4 cs) \<or>
       (take 5 cs = py ''false'' \<and> rest = drop 5 cs) \<or>
       match_number cs = Some (v, rest) \<or>
       (take 3 cs = py ''NaN'' \<and> rest = drop 3 cs) \<or>
       (take 8 cs = py ''Infinity'' \<and> rest = drop 8 cs) \<or>
       (take 9 cs = py ''-Infinity'' \<and> rest = drop 9 cs)"
      by (subst (asm) scan_once.simps) (auto split: if_splits option.splits)
    then show ?thesis
      using drop_literal_shorter [of 4 cs "''null''"] drop_literal_shorter [of 4 cs "''true''"]
        drop_literal_shorter [of 5 cs "''false''"] drop_literal_shorter [of 3 cs "''NaN''"]
        drop_literal_shorter [of 8 cs "''Infinity''"]
        drop_literal_shorter [of 9 cs "''-Infinity''"] match_number_shorter [of cs v rest]
      by (elim disjE conjE) simp_all
  qed
next
  case (2 constants acc cs)
  from "2.prems" obtain x r0 where s: "scan_once constants cs = Inr (x, r0)"
    by (subst (asm) parse_array_items.simps) (auto split: sum.splits)
  from "2.IH"(1) [OF s] have r0: "length r0 < length cs" .
  show ?case
  proof (cases "after_item CHR '']'' r0")
    case (Closed r)
    with "2.prems" s have "rest = r"
      by (subst (asm) parse_array_items.simps) simp
    with after_item_Closed [OF Closed] r0 show ?thesis by simp
  next
    case (Next r)
    from after_item_Next [OF Next] r0 have lt: "length r < length cs" by simp
    with "2.prems" s Next have "parse_array_items constants (acc @ [x]) r = Inr (v, rest)"
      by (subst (asm) parse_array_items.simps) simp
    from "2.IH"(2) [OF s refl Next lt this] lt show ?thesis by simp
  next
    case (Neither n)
    with "2.prems" s show ?thesis
      by (subst (asm) parse_array_items.simps) simp
  qed
next
  case (3 constants pairs cs)
  from "3.prems" obtain key cs1 where k: "object_key cs = Inr (key, cs1)"
    by (subst (asm) parse_object_items.simps) (auto split: sum.splits)
  from object_key_shorter [OF k] have c1: "length cs1 < length cs" .
  from "3.prems" k obtain x r0 where s: "scan_once constants cs1 = Inr (x, r0)"
    by (subst (asm) parse_object_items.simps) (auto split: sum.splits)
  from "3.IH"(1) [OF k refl s] c1 have r0: "length r0 < length cs" by simp
  show ?case
  proof (cases "after_item CHR ''}'' r0")
    case (Closed r)
    with "3.prems" k s have "rest = r"
      by (subst (asm) parse_object_items.simps) simp
    with after_item_Closed [OF Closed] r0 show ?thesis by simp
  next
    case (Next r)
    from after_item_Next [OF Next] r0 have lt: "length r < length cs" by simp
    with "3.prems" k s Next
    have "parse_object_items constants (dict_setitem pairs key x) r = Inr (v, rest)"
      by (subst (asm) parse_object_items.simps) simp
    from "3.IH"(2) [OF k refl s refl Next lt this] lt show ?thesis by simp
  next
    case (Neither n)
    with "3.prems" k s show ?thesis
      by (subst (asm) parse_object_items.simps) simp
  qed
qed

text \<open>The loops as the source has them.\<close>

lemma parse_array_items_unguarded:
  "parse_array_items constants acc cs =
     (case scan_once constants cs of
        Inl e \<Rightarrow> Inl e
      | Inr (v, rest) \<Rightarrow>
          (case after_item CHR '']'' rest of
             Closed r \<Rightarrow> Inr (PyList (acc @ [v]), r)
           | Neither n \<Rightarrow> Inl (DecodeError (expecting_delimiter CHR '','') n)
           | Next r \<Rightarrow> parse_array_items constants (acc @ [v]) r))"
proof (cases "scan_once constants cs")
  case (Inl e)
  then show ?thesis by (subst parse_array_items.simps) simp
next
  case (Inr p)
  obtain v rest where p: "p = (v, rest)" by (cases p)
  from scan_once_shorter(1) Inr p have lt: "length rest < length cs" by blast
  show ?thesis
  proof (cases "after_item CHR '']'' rest")
    case (Next r)
    from after_item_Next [OF Next] lt have "length r < length cs" by simp
    with Inr p Next show ?thesis by (subst parse_array_items.simps) simp
  qed (use Inr p in \<open>subst parse_array_items.simps, simp\<close>)+
qed

lemma parse_object_items_unguarded:
  "parse_object_items constants pairs cs =
     (case object_key cs of
        Inl e \<Rightarrow> Inl e
      | Inr (key, cs1) \<Rightarrow>
          (case scan_once constants cs1 of
             Inl e \<Rightarrow> Inl e
           | Inr (v, rest) \<Rightarrow>
               (case after_item CHR ''}'' rest of
                  Closed r \<Rightarrow> Inr (PyDict (dict_setitem pairs key v), r)
                | Neither n \<Rightarrow> Inl (DecodeError (expecting_delimiter CHR '','') n)
                | Next r \<Rightarrow> parse_object_items constants (dict_setitem pairs key v) r)))"
proof (cases "object_key cs")
  case (Inl e)
  then show ?thesis by (subst parse_object_items.simps) simp
next
  case k: (Inr q)
  obtain key cs1 where q: "q = (key, cs1)" by (cases q)
  from object_key_shorter k q have c1: "length cs1 < length cs" by blast
  show ?thesis
  proof (cases "scan_once constants cs1")
    case (Inl e)
    with k q show ?thesis by (subst parse_object_items.simps) simp
  next
    case (Inr p)
    obtain v rest where p: "p = (v, rest)" by (cases p)
    from scan_once_shorter(1) Inr p c1 have lt: "length rest < length cs" by fastforce
    show ?thesis
    proof (cases "after_item CHR ''}'' rest")
      case (Next r)
      from after_item_Next [OF Next] lt have "length r < length cs" by simp
      with k q Inr p Next show ?thesis by (subst parse_object_items.simps) simp
    qed (use k q Inr p in \<open>subst parse_object_items.simps, simp\<close>)+
  qed
qed


section \<open>Valid JSON is accepted\<close>

text \<open>
  Reading the three constants only adds documents: whatever the decoder reads without
  them it reads with them, to the same value. So every valid JSON text is accepted by
  \<^verbatim>\<open>json.loads\<close>, and a text that \<^verbatim>\<open>json.loads\<close> rejects is not valid JSON.
\<close>

lemma scan_once_constants:
  "scan_once False cs = Inr r \<Longrightarrow> scan_once True cs = Inr r"
  "parse_array_items False acc cs = Inr r \<Longrightarrow> parse_array_items True acc cs = Inr r"
  "parse_object_items False ps cs = Inr r \<Longrightarrow> parse_object_items True ps cs = Inr r"
proof (induction "False" cs and "False" acc cs and "False" ps cs arbitrary: r and r and r
    rule: scan_once_parse_array_items_parse_object_items.induct)
  case (1 cs)
  from "1.prems" obtain c cs1 where cs: "cs = c # cs1"
    by (cases cs) (auto simp: scan_once.simps)
  consider (str) "c = ord CHR 0x22"
    | (obj) "c \<noteq> ord CHR 0x22" "c = ord CHR ''{''"
    | (arr) "c \<noteq> ord CHR 0x22" "c \<noteq> ord CHR ''{''" "c = ord CHR ''[''"
    | (other) "c \<noteq> ord CHR 0x22" "c \<noteq> ord CHR ''{''" "c \<noteq> ord CHR ''[''"
    by blast
  then show ?case
  proof cases
    case str
    with "1.prems" cs show ?thesis by (simp add: scan_once.simps)
  next
    case obj
    show ?thesis
    proof (cases "take 1 (skip_whitespace cs1) = py ''}''")
      case True
      with "1.prems" cs obj show ?thesis by (simp add: scan_once.simps)
    next
      case False
      with "1.prems" cs obj have "parse_object_items False [] (skip_whitespace cs1) = Inr r"
        by (simp add: scan_once.simps)
      from "1.hyps"(1) [OF cs obj False this] cs obj False show ?thesis
        by (simp add: scan_once.simps)
    qed
  next
    case arr
    show ?thesis
    proof (cases "take 1 (skip_whitespace cs1) = py '']''")
      case True
      with "1.prems" cs arr show ?thesis by (simp add: scan_once.simps)
    next
      case False
      with "1.prems" cs arr have "parse_array_items False [] (skip_whitespace cs1) = Inr r"
        by (simp add: scan_once.simps)
      from "1.hyps"(2) [OF cs arr False this] cs arr False show ?thesis
        by (simp add: scan_once.simps)
    qed
  next
    case other
    have eq: "scan_once k cs =
        (if take 4 cs = py ''null'' then Inr (PyNone, drop 4 cs)
         else if take 4 cs = py ''true'' then Inr (PyBool True, drop 4 cs)
         else if take 5 cs = py ''false'' then Inr (PyBool False, drop 5 cs)
         else
           (case match_number cs of
              Some r \<Rightarrow> Inr r
            | None \<Rightarrow>
                if k \<and> take 3 cs = py ''NaN''
                then Inr (PyFloat NaN, drop 3 cs)
                else if k \<and> take 8 cs = py ''Infinity''
                then Inr (PyFloat (Inf False), drop 8 cs)
                else if k \<and> take 9 cs = py ''-Infinity''
                then Inr (PyFloat (Inf True), drop 9 cs)
                else Inl (StopIteration (length cs))))" for k
      using other unfolding cs by (subst scan_once.simps) (simp only: list.case if_False)
    from "1.prems" have "scan_once False cs = Inr r" .
    then show ?thesis
      unfolding eq [of False] eq [of True]
      by (cases "match_number cs") (auto split: if_splits)
  qed
next
  case (2 acc cs)
  from "2.prems" obtain x r0 where s: "scan_once False cs = Inr (x, r0)"
    by (subst (asm) parse_array_items.simps) (auto split: sum.splits)
  from "2.hyps"(1) [OF s] have s': "scan_once True cs = Inr (x, r0)" .
  from scan_once_shorter(1) [OF s] have r0: "length r0 < length cs" .
  show ?case
  proof (cases "after_item CHR '']'' r0")
    case (Next n)
    from after_item_Next [OF Next] r0 have lt: "length n < length cs" by simp
    with "2.prems" s Next have "parse_array_items False (acc @ [x]) n = Inr r"
      by (subst (asm) parse_array_items.simps) simp
    from "2.hyps"(2) [OF s refl Next lt this] s' Next show ?thesis
      by (subst parse_array_items_unguarded) simp
  qed (use "2.prems" s s' in
      \<open>subst parse_array_items_unguarded, subst (asm) parse_array_items_unguarded, simp\<close>)+
next
  case (3 ps cs)
  from "3.prems" obtain key cs1 where k: "object_key cs = Inr (key, cs1)"
    by (subst (asm) parse_object_items.simps) (auto split: sum.splits)
  from object_key_shorter [OF k] have c1: "length cs1 < length cs" .
  from "3.prems" k obtain x r0 where s: "scan_once False cs1 = Inr (x, r0)"
    by (subst (asm) parse_object_items.simps) (auto split: sum.splits)
  from "3.hyps"(1) [OF k refl s] have s': "scan_once True cs1 = Inr (x, r0)" .
  from scan_once_shorter(1) [OF s] c1 have r0: "length r0 < length cs" by simp
  show ?case
  proof (cases "after_item CHR ''}'' r0")
    case (Next n)
    from after_item_Next [OF Next] r0 have lt: "length n < length cs" by simp
    with "3.prems" k s Next have "parse_object_items False (dict_setitem ps key x) n = Inr r"
      by (subst (asm) parse_object_items.simps) simp
    from "3.hyps"(2) [OF k refl s refl Next lt this] k s' Next show ?thesis
      by (subst parse_object_items_unguarded) simp
  qed (use "3.prems" k s s' in
      \<open>subst parse_object_items_unguarded, subst (asm) parse_object_items_unguarded, simp\<close>)+
qed

lemma decode_constants: "decode False s = Inr v \<Longrightarrow> decode True s = Inr v"
proof -
  assume a: "decode False s = Inr v"
  then obtain p where "scan_once False (skip_whitespace s) = Inr p"
    by (auto simp: decode_def raw_decode_def split: sum.splits scan_error.splits)
  from scan_once_constants(1) [OF this] this a show ?thesis
    by (simp add: decode_def raw_decode_def)
qed

lemma valid_json_no_bom:
  assumes "valid_json s"
  shows "take 1 s \<noteq> [0xfeff]"
proof
  assume "take 1 s = [0xfeff]"
  then obtain t where s: "s = 0xfeff # t" by (cases s) auto
  have "scan_once False (0xfeff # t) = Inl (StopIteration (Suc (length t)))"
    by (subst scan_once.simps)
       (simp add: py_def ord_def match_number_def match_integer_def)
  with s have "decode False s = Inl (py ''Expecting value'', Suc (length t))"
    by (simp add: decode_def raw_decode_def skip_whitespace_def is_whitespace_def)
  with assms show False by (simp add: valid_json_def)
qed

lemma valid_json_is_accepted:
  assumes "valid_json s"
  shows "\<exists>v. json_loads (PyStr s) = Inr v"
proof -
  from assms obtain v where "decode False s = Inr v"
    by (auto simp: valid_json_def split: sum.splits)
  from decode_constants [OF this] valid_json_no_bom [OF assms] show ?thesis
    by simp
qed

lemma rejected_is_not_valid_json:
  "json_loads (PyStr s) = Inl e \<Longrightarrow> \<not> valid_json s"
  using valid_json_is_accepted [of s] by auto


section \<open>Evaluation on concrete inputs\<close>

text \<open>
  The equations that run the decoder, the encoder and the handler on a concrete input.
\<close>

lemmas decoder_eval = py_def ord_def backslash_def Let_def
  decode_def raw_decode_def scan_once.simps parse_array_items.simps parse_object_items.simps
  object_key_def after_item_def scanstring_def scanstring_from.simps scan_escape_def
  skip_whitespace_def is_whitespace_def match_number_def match_integer_def match_frac_def
  match_exp_def is_digit_def nat_of_digits_def decode_error_def digits10.simps
  expecting_delimiter_def expecting_property_name_def unescape_def hexval_def
  invalid_escape_def invalid_uXXXX_escape_def unterminated_string_def

lemmas encoder_eval = py_def ord_def backslash_def Let_def
  encode_basestring_ascii_def escape_ascii_def hex4_def hexdigit_def int_repr_def
  digits10.simps

section \<open>The handler's paths\<close>

lemma issubclass_Exception_all [simp]: "issubclass_Exception c"
  by (cases c) simp_all

text \<open>The handler returns what the \<^verbatim>\<open>try\<close> block returns, or the response for its exception.\<close>

lemma lambda_handler_result:
  "fst (lambda_handler event context lg) =
     Returned (case fst (try_block event lg) of Inr r \<Rightarrow> r | Inl e \<Rightarrow> error_response e)"
  by (simp add: lambda_handler_def split: prod.splits sum.splits)

lemma try_block_get_raises:
  assumes "py_get event (py ''body'') (PyStr (py ''{}'')) = Inl e"
  shows "fst (try_block event lg) = Inl e"
  using assms by (simp add: try_block_def Let_def)

lemma try_block_loads_raises:
  assumes "py_get event (py ''body'') (PyStr (py ''{}'')) = Inr text"
    and "json_loads text = Inl e"
  shows "fst (try_block event lg) = Inl e"
  using assms by (simp add: try_block_def Let_def)

lemma try_block_decoded:
  assumes "py_get event (py ''body'') (PyStr (py ''{}'')) = Inr text"
    and "json_loads text = Inr (PyDict kvs)"
  shows "fst (try_block event lg) =
     Inr (let user_id = (case map_of kvs (py ''id'') of Some v \<Rightarrow> v | None \<Rightarrow> PyNone);
              name = (case map_of kvs (py ''name'') of Some v \<Rightarrow> v | None \<Rightarrow> PyNone)
          in if truthy user_id \<and> truthy name then success_response user_id name
             else missing_response)"
  using assms by (simp add: try_block_def Let_def)

lemma try_block_log_independent:
  "fst (try_block event lg) = fst (try_block event lg')"
  by (simp add: try_block_def Let_def split: sum.splits)

lemma try_block_body_only:
  assumes "py_get ev1 (py ''body'') (PyStr (py ''{}'')) = py_get ev2 (py ''body'') (PyStr (py ''{}''))"
  shows "fst (try_block ev1 lg1) = fst (try_block ev2 lg2)"
  using assms by (simp add: try_block_def Let_def split: sum.splits)




section \<open>The claims\<close>



text \<open>
  C2. For every event whose body decodes to a JSON mapping in which \<^verbatim>\<open>id\<close> is missing,
  \<^verbatim>\<open>name\<close> is missing, or either value is falsy, the handler returns status 400, and the
  body is the serialization of the one fixed error message and nothing else.
\<close>

theorem missing_or_falsy_is_400:
  assumes "map_of ev (py ''body'') = Some (PyStr s)"
    and "json_loads (PyStr s) = Inr (PyDict kvs)"
    and "map_of kvs (py ''id'') = None \<or> map_of kvs (py ''name'') = None
         \<or> (\<exists>v. map_of kvs (py ''id'') = Some v \<and> \<not> truthy v)
         \<or> (\<exists>v. map_of kvs (py ''name'') = Some v \<and> \<not> truthy v)"
  shows \<open>fst (lambda_handler (PyDict ev) context lg) =
     Returned \<lparr>statusCode = 400,
       headers = [(py ''Content-Type'', py ''application/json'')],
       body = json_dumps (PyDict [(py ''error'', PyStr (py ''Missing "id" or "name"''))])\<rparr>\<close>
proof -
  from assms(1) have "py_get (PyDict ev) (py ''body'') (PyStr (py ''{}'')) = Inr (PyStr s)"
    by simp
  from try_block_decoded [OF this assms(2)] assms(3)
  have "fst (try_block (PyDict ev) lg) = Inr missing_response"
    by (auto simp: Let_def)
  then show ?thesis
    by (simp add: lambda_handler_result missing_response_def json_headers_def)
qed

text \<open>The values that count as falsy: the empty string, null and zero among them.\<close>

lemma falsy_values:
  "\<not> truthy v \<longleftrightarrow>
     v = PyNone \<or> v = PyBool False \<or> v = PyInt 0 \<or> (\<exists>s e. v = PyFloat (Finite s 0 e))
     \<or> v = PyStr [] \<or> v = PyList [] \<or> v = PyDict []"
  by (cases v rule: truthy.cases) auto

theorem missing_or_falsy_is_400_witness:
  \<open>fst (lambda_handler
          (PyDict [(py ''body'', PyStr (py ''{"id": "", "name": "Bob"}''))]) () []) =
     Returned \<lparr>statusCode = 400,
       headers = [(py ''Content-Type'', py ''application/json'')],
       body = py ''{"error": "Missing '' @ [backslash] @ py ''"id'' @ [backslash]
              @ py ''" or '' @ [backslash] @ py ''"name'' @ [backslash] @ py ''""}''\<rparr>\<close>
proof -
  have b: \<open>map_of [(py ''body'', PyStr (py ''{"id": "", "name": "Bob"}''))] (py ''body'')
      = Some (PyStr (py ''{"id": "", "name": "Bob"}''))\<close>
    by simp
  have l: \<open>json_loads (PyStr (py ''{"id": "", "name": "Bob"}'')) =
      Inr (PyDict [(py ''id'', PyStr []), (py ''name'', PyStr (py ''Bob''))])\<close>
    by (simp add: decoder_eval)
  have f: "map_of [(py ''id'', PyStr []), (py ''name'', PyStr (py ''Bob''))] (py ''id'') = None
      \<or> map_of [(py ''id'', PyStr []), (py ''name'', PyStr (py ''Bob''))] (py ''name'') = None
      \<or> (\<exists>v. map_of [(py ''id'', PyStr []), (py ''name'', PyStr (py ''Bob''))] (py ''id'')
               = Some v \<and> \<not> truthy v)
      \<or> (\<exists>v. map_of [(py ''id'', PyStr []), (py ''name'', PyStr (py ''Bob''))] (py ''name'')
               = Some v \<and> \<not> truthy v)"
    by simp
  have d: \<open>json_dumps (PyDict [(py ''error'', PyStr (py ''Missing "id" or "name"''))]) =
      py ''{"error": "Missing '' @ [backslash] @ py ''"id'' @ [backslash]
        @ py ''" or '' @ [backslash] @ py ''"name'' @ [backslash] @ py ''""}''\<close>
    by (simp add: encoder_eval)
  show ?thesis
    using missing_or_falsy_is_400 [OF b l f, of "()" "[]"] by (simp only: d)
qed


text \<open>
  C3. For every event the handler returns a response and raises nothing: every
  exception of the \<^verbatim>\<open>try\<close> block is caught and turned into the response for it.
\<close>

theorem never_raises:
  "(\<exists>r. fst (lambda_handler event context lg) = Returned r) \<and>
   (\<forall>e. fst (try_block event lg) = Inl e \<longrightarrow>
        fst (lambda_handler event context lg) = Returned (error_response e))"
  by (simp add: lambda_handler_result)

theorem never_raises_witness:
  \<open>fst (try_block (PyList []) []) =
     Inl (Exn AttributeError ([39] @ py ''list'' @ [39] @ py '' object has no attribute ''
            @ [39] @ py ''get'' @ [39])) \<and>
   fst (lambda_handler (PyList []) () []) =
     Returned \<lparr>statusCode = 500,
       headers = [(py ''Content-Type'', py ''application/json'')],
       body = py ''{"error": "Internal server error", "message": "'' @ [39] @ py ''list''
              @ [39] @ py '' object has no attribute '' @ [39] @ py ''get'' @ [39]
              @ py ''", "type": "AttributeError"}''\<rparr>\<close>
proof -
  have t: "fst (try_block (PyList []) []) =
     Inl (Exn AttributeError ([39] @ py ''list'' @ [39] @ py '' object has no attribute ''
            @ [39] @ py ''get'' @ [39]))"
    by (simp add: try_block_def Let_def py_def ord_def)
  have d: \<open>body (error_response (Exn AttributeError ([39] @ py ''list'' @ [39]
            @ py '' object has no attribute '' @ [39] @ py ''get'' @ [39]))) =
       py ''{"error": "Internal server error", "message": "'' @ [39] @ py ''list''
         @ [39] @ py '' object has no attribute '' @ [39] @ py ''get'' @ [39]
         @ py ''", "type": "AttributeError"}''\<close>
    by (simp add: error_response_def encoder_eval)
  from never_raises [of "PyList []" "()" "[]"] t
  have "fst (lambda_handler (PyList []) () []) =
     Returned (error_response (Exn AttributeError ([39] @ py ''list'' @ [39]
       @ py '' object has no attribute '' @ [39] @ py ''get'' @ [39])))"
    by simp
  with t d show ?thesis
    by (simp add: error_response_def json_headers_def)
qed




text \<open>
  C5. For every event without the key \<^verbatim>\<open>body\<close>, the handler takes the body to be the
  text of the empty object, which decodes to the empty mapping, and returns status 400
  with the fixed error body.
\<close>

theorem absent_body_is_400:
  assumes "map_of ev (py ''body'') = None"
  shows \<open>py_get (PyDict ev) (py ''body'') (PyStr (py ''{}'')) = Inr (PyStr (py ''{}'')) \<and>
    json_loads (PyStr (py ''{}'')) = Inr (PyDict []) \<and>
    fst (lambda_handler (PyDict ev) context lg) =
     Returned \<lparr>statusCode = 400,
       headers = [(py ''Content-Type'', py ''application/json'')],
       body = json_dumps (PyDict [(py ''error'', PyStr (py ''Missing "id" or "name"''))])\<rparr>\<close>
proof -
  from assms have g: "py_get (PyDict ev) (py ''body'') (PyStr (py ''{}'')) = Inr (PyStr (py ''{}''))"
    by simp
  have l: "json_loads (PyStr (py ''{}'')) = Inr (PyDict [])"
    by (simp add: decoder_eval)
  from try_block_decoded [OF g l]
  have "fst (try_block (PyDict ev) lg) = Inr missing_response"
    by simp
  with g l show ?thesis
    by (simp add: lambda_handler_result missing_response_def json_headers_def)
qed

theorem absent_body_is_400_witness:
  \<open>fst (lambda_handler (PyDict [(py ''httpMethod'', PyStr (py ''POST''))]) () []) =
     Returned \<lparr>statusCode = 400,
       headers = [(py ''Content-Type'', py ''application/json'')],
       body = json_dumps (PyDict [(py ''error'', PyStr (py ''Missing "id" or "name"''))])\<rparr>\<close>
proof -
  have "map_of [(py ''httpMethod'', PyStr (py ''POST''))] (py ''body'') = None"
    by (simp add: py_def ord_def)
  from absent_body_is_400 [OF this, of "()" "[]"] show ?thesis by simp
qed



text \<open>
  C7. The handler is deterministic and keeps no state that reaches its result: the
  same event gives the same response whatever the log holds and whatever context is
  passed, so also when it is called a second time on the log the first call left.
\<close>

theorem same_event_same_response:
  "fst (lambda_handler event c1 lg1) = fst (lambda_handler event c2 lg2) \<and>
   fst (lambda_handler event c2 (snd (lambda_handler event c1 lg1))) =
     fst (lambda_handler event c1 lg1)"
  using try_block_log_independent [of event lg1 lg2]
    try_block_log_independent [of event "snd (lambda_handler event c1 lg1)" lg1]
  by (simp add: lambda_handler_result)

theorem same_event_same_response_witness:
  \<open>fst (lambda_handler (PyDict [(py ''body'', PyStr (py ''{"id": 1}''))]) () []) =
     fst (lambda_handler (PyDict [(py ''body'', PyStr (py ''{"id": 1}''))]) (1::nat)
           [Error_error (py ''Error: earlier'')]) \<and>
   fst (lambda_handler (PyDict [(py ''body'', PyStr (py ''{"id": 1}''))]) (1::nat)
         (snd (lambda_handler (PyDict [(py ''body'', PyStr (py ''{"id": 1}''))]) () []))) =
     fst (lambda_handler (PyDict [(py ''body'', PyStr (py ''{"id": 1}''))]) () [])\<close>
  by (rule same_event_same_response)

text \<open>
  C8. For every event whose key \<^verbatim>\<open>body\<close> is present with the value null,
  \<^verbatim>\<open>json.loads\<close> raises a \<^verbatim>\<open>TypeError\<close> and the handler returns status 500, not the 400
  of an absent key.
\<close>

theorem null_body_is_500:
  assumes "map_of ev (py ''body'') = Some PyNone"
  shows "json_loads PyNone =
      Inl (Exn TypeError (py ''the JSON object must be str, bytes or bytearray, not NoneType''))
    \<and> fst (lambda_handler (PyDict ev) context lg) =
     Returned \<lparr>statusCode = 500,
       headers = [(py ''Content-Type'', py ''application/json'')],
       body = json_dumps (PyDict
         [(py ''error'', PyStr (py ''Internal server error'')),
          (py ''message'',
             PyStr (py ''the JSON object must be str, bytes or bytearray, not NoneType'')),
          (py ''type'', PyStr (py ''TypeError''))])\<rparr>"
proof -
  from assms have g: "py_get (PyDict ev) (py ''body'') (PyStr (py ''{}'')) = Inr PyNone"
    by simp
  have l: "json_loads PyNone =
      Inl (Exn TypeError (py ''the JSON object must be str, bytes or bytearray, not NoneType''))"
    by (simp add: py_def)
  from try_block_loads_raises [OF g l] l show ?thesis
    by (simp add: lambda_handler_result error_response_def json_headers_def)
qed

theorem null_body_is_500_witness:
  \<open>fst (lambda_handler (PyDict [(py ''body'', PyNone)]) () []) =
     Returned \<lparr>statusCode = 500,
       headers = [(py ''Content-Type'', py ''application/json'')],
       body = py ''{"error": "Internal server error", "message": "the JSON object must be str, bytes or bytearray, not NoneType", "type": "TypeError"}''\<rparr>\<close>
proof -
  have b: "map_of [(py ''body'', PyNone)] (py ''body'') = Some PyNone"
    by simp
  have d: \<open>json_dumps (PyDict
         [(py ''error'', PyStr (py ''Internal server error'')),
          (py ''message'',
             PyStr (py ''the JSON object must be str, bytes or bytearray, not NoneType'')),
          (py ''type'', PyStr (py ''TypeError''))]) =
      py ''{"error": "Internal server error", "message": "the JSON object must be str, bytes or bytearray, not NoneType", "type": "TypeError"}''\<close>
    by (simp add: encoder_eval)
  from null_body_is_500 [OF b, of "()" "[]"] show ?thesis by (simp only: d)
qed

text \<open>
  C9. Two events whose \<^verbatim>\<open>body\<close> fields are equal, both absent or both present with the
  same value, get equal responses: no other field of the event, nor the context or the
  log, reaches the response.
\<close>

theorem response_depends_on_body_only:
  assumes "map_of ev1 (py ''body'') = map_of ev2 (py ''body'')"
  shows "fst (lambda_handler (PyDict ev1) c1 lg1) = fst (lambda_handler (PyDict ev2) c2 lg2)"
proof -
  from assms have "py_get (PyDict ev1) (py ''body'') (PyStr (py ''{}'')) =
      py_get (PyDict ev2) (py ''body'') (PyStr (py ''{}''))"
    by simp
  from try_block_body_only [OF this, of lg1 lg2] show ?thesis
    by (simp add: lambda_handler_result)
qed

theorem response_depends_on_body_only_witness:
  \<open>fst (lambda_handler
          (PyDict [(py ''httpMethod'', PyStr (py ''POST'')), (py ''body'', PyStr (py ''{"id": 1}''))])
          () []) =
   fst (lambda_handler
          (PyDict [(py ''body'', PyStr (py ''{"id": 1}'')), (py ''path'', PyStr (py ''/users''))])
          () [Error_error (py ''Error: earlier'')])\<close>
proof -
  have \<open>map_of [(py ''httpMethod'', PyStr (py ''POST'')), (py ''body'', PyStr (py ''{"id": 1}''))]
          (py ''body'') =
        map_of [(py ''body'', PyStr (py ''{"id": 1}'')), (py ''path'', PyStr (py ''/users''))]
          (py ''body'')\<close>
    by (simp add: py_def ord_def)
  from response_depends_on_body_only [OF this] show ?thesis .
qed




end
